theory Spec2Isabelle
  imports Main "HOL-Library.AList" "HOL-Library.Sublist"
begin

section \<open>JavaScript values used by the worker library\<close>

text \<open>
  A value of TypeScript type \<open>number | undefined\<close>, as the optional fields
  \<open>threadsCount\<close> and \<open>inviolableThreadsCount\<close> of \<open>WorkersConfig\<close> hold it.
  Thread counts are whole numbers, so the numeric case carries an \<open>int\<close>.
\<close>

datatype number = Undefined | NaN | Num int

text \<open>
  \<open>a > b\<close>, \<open>a < b\<close> and \<open>a <= b\<close> of JavaScript: \<open>undefined\<close> converts to \<open>NaN\<close>,
  and every comparison with \<open>NaN\<close> is false.
\<close>

fun js_gt :: "number \<Rightarrow> number \<Rightarrow> bool" where
  "js_gt (Num a) (Num b) = (a > b)"
| "js_gt _ _ = False"

fun js_lt :: "number \<Rightarrow> number \<Rightarrow> bool" where
  "js_lt (Num a) (Num b) = (a < b)"
| "js_lt _ _ = False"

fun js_le :: "number \<Rightarrow> number \<Rightarrow> bool" where
  "js_le (Num a) (Num b) = (a \<le> b)"
| "js_le _ _ = False"

text \<open>\<open>a - b\<close> of JavaScript.\<close>

fun js_sub :: "number \<Rightarrow> number \<Rightarrow> number" where
  "js_sub (Num a) (Num b) = Num (a - b)"
| "js_sub _ _ = NaN"

text \<open>The global \<open>isNaN\<close>: true of \<open>NaN\<close> and of \<open>undefined\<close>.\<close>

fun isNaN :: "number \<Rightarrow> bool" where
  "isNaN (Num a) = False"
| "isNaN _ = True"

text \<open>
  Any other JavaScript value: task payloads, the \<open>data\<close> handed to a release handler, the
  fields of a serialized error. An object is its list of own enumerable properties.
\<close>

datatype jsvalue =
    JUndefined
  | JNull
  | JBool bool
  | JNumber int
  | JString string
  | JArray "jsvalue list"
  | JObject "(string \<times> jsvalue) list"

text \<open>Decimal rendering of a number inside a template string.\<close>

fun show_nat :: "nat \<Rightarrow> string" where
  "show_nat n =
     (if n < 10 then [char_of (48 + n)]
      else show_nat (n div 10) @ [char_of (48 + n mod 10)])"

declare show_nat.simps [simp del]

section \<open>worker.utils: getWorkersCount\<close>

text \<open>
  \<open>getWorkersCount(threadsCount, inviolableThreadsCount = 0)\<close>; \<open>cpus\<close> is
  \<open>os.cpus().length\<close>. The default value replaces an \<open>undefined\<close> second argument.
\<close>

definition getWorkersCount :: "nat \<Rightarrow> number \<Rightarrow> number \<Rightarrow> number" where
  "getWorkersCount cpus threadsCount inviolableThreadsCount =
     (let inviolable = (if inviolableThreadsCount = Undefined then Num 0
                        else inviolableThreadsCount)
      in if threadsCount = Num 0 \<or> isNaN threadsCount
         then js_sub (Num (int cpus)) inviolable
         else threadsCount)"

section \<open>worker-message: WorkerMessage\<close>

text \<open>
  An object held in the \<open>error\<close> field of a message. \<open>own\<close> lists its own enumerable
  properties in order, the ones an object spread copies. \<open>inherited\<close> lists the
  properties that can be read but are not copied by a spread: for an \<open>Error\<close> instance cast
  to \<open>ErrorJson\<close>, the non-enumerable \<open>message\<close> and \<open>stack\<close> and the \<open>name\<close> of the
  prototype. A plain object has none of those.
\<close>

record ErrorJson =
  own :: "(string \<times> jsvalue) list"
  inherited :: "(string \<times> jsvalue) list"

text \<open>Reading the property \<open>k\<close> of an object; a missing property reads \<open>undefined\<close>.\<close>

definition get_prop :: "ErrorJson \<Rightarrow> string \<Rightarrow> jsvalue" where
  "get_prop obj k =
     (case map_of (own obj) k of
        Some v \<Rightarrow> v
      | None \<Rightarrow> (case map_of (inherited obj) k of Some v \<Rightarrow> v | None \<Rightarrow> JUndefined))"

text \<open>
  The block shared by \<open>create\<close> and \<open>toJson\<close>:
  \<open>const { message, stack, name: errorName, ...rest } = error;\<close>
  \<open>errorJson = { message, stack, name: errorName, ...rest };\<close>
\<close>

definition normalizeError :: "ErrorJson \<Rightarrow> ErrorJson" where
  "normalizeError error =
     (let message = get_prop error ''message'';
          stack = get_prop error ''stack'';
          errorName = get_prop error ''name'';
          rest = filter (\<lambda>kv. fst kv \<notin> {''message'', ''stack'', ''name''}) (own error)
      in \<lparr> own = [(''message'', message), (''stack'', stack), (''name'', errorName)] @ rest,
           inherited = [] \<rparr>)"

text \<open>The object literal \<open>{}\<close>.\<close>

definition emptyObject :: ErrorJson where
  "emptyObject = \<lparr> own = [], inherited = [] \<rparr>"

text \<open>
  The fields of the class \<open>WorkerMessage\<close>, which are also the fields of the flat record
  \<open>WorkerMessageContent\<close> that crosses the thread boundary. An optional \<open>error\<close> that is
  \<open>undefined\<close> is \<open>None\<close>; an object is truthy, so \<open>if (error)\<close> asks for \<open>Some\<close>.
\<close>

record WorkerMessage =
  workerId :: nat
  type :: string
  name :: string
  data :: jsvalue
  error :: "ErrorJson option"

text \<open>\<open>WorkerMessage.create(content)\<close>.\<close>

definition create :: "WorkerMessage \<Rightarrow> WorkerMessage" where
  "create content =
     \<lparr> workerId = workerId content, type = type content, name = name content,
       data = data content,
       error = (case error content of
                  Some e \<Rightarrow> Some (normalizeError e)
                | None \<Rightarrow> None) \<rparr>"

text \<open>\<open>toJson()\<close>: \<open>errorJson\<close> starts as \<open>{}\<close> and the record always carries it.\<close>

definition toJson :: "WorkerMessage \<Rightarrow> WorkerMessage" where
  "toJson m =
     \<lparr> workerId = workerId m, type = type m, name = name m, data = data m,
       error = Some (case error m of
                       Some e \<Rightarrow> normalizeError e
                     | None \<Rightarrow> emptyObject) \<rparr>"

text \<open>The factories the worker uses, with the strings of \<open>WorkerMessageType\<close> and
  \<open>WorkerMessageName\<close>.\<close>

definition taskResolved :: "nat \<Rightarrow> jsvalue \<Rightarrow> WorkerMessage" where
  "taskResolved wid v =
     \<lparr> workerId = wid, type = ''info'', name = ''task_resolved'', data = v, error = None \<rparr>"

definition taskRejected :: "nat \<Rightarrow> ErrorJson option \<Rightarrow> WorkerMessage" where
  "taskRejected wid e =
     \<lparr> workerId = wid, type = ''error'', name = ''task_rejected'', data = JNull, error = e \<rparr>"

definition taskProgress :: "nat \<Rightarrow> jsvalue \<Rightarrow> WorkerMessage" where
  "taskProgress wid v =
     \<lparr> workerId = wid, type = ''info'', name = ''task_progress'', data = v, error = None \<rparr>"

section \<open>worker: Worker\<close>

text \<open>
  The state of a \<open>Worker\<close> is its private flag. The methods run in a thread whose id is
  \<open>tid\<close> and post to \<open>parentPort\<close>; the messages posted so far are the second component
  of the state. A method returns its literal, or \<open>None\<close> for \<open>undefined\<close>.
\<close>

record Worker =
  isRejected :: bool

definition new_Worker :: Worker where
  "new_Worker = \<lparr> isRejected = False \<rparr>"

type_synonym port = "WorkerMessage list"

definition resolve :: "nat \<Rightarrow> jsvalue \<Rightarrow> Worker \<times> port
    \<Rightarrow> string option \<times> Worker \<times> port" where
  "resolve tid d s =
     (case s of (w, posted) \<Rightarrow>
        if isRejected w = False
        then (Some ''task_resolved'', w, posted @ [toJson (taskResolved tid d)])
        else (None, w, posted))"

definition reject :: "nat \<Rightarrow> ErrorJson option \<Rightarrow> Worker \<times> port
    \<Rightarrow> string option \<times> Worker \<times> port" where
  "reject tid e s =
     (case s of (w, posted) \<Rightarrow>
        (Some ''task_rejected'', w\<lparr> isRejected := True \<rparr>,
         posted @ [toJson (taskRejected tid e)]))"

definition progress :: "nat \<Rightarrow> jsvalue \<Rightarrow> Worker \<times> port
    \<Rightarrow> string option \<times> Worker \<times> port" where
  "progress tid d s =
     (case s of (w, posted) \<Rightarrow>
        (Some ''task_progress'', w, posted @ [toJson (taskProgress tid d)]))"

text \<open>A sequence of calls on one worker.\<close>

datatype worker_call = Resolve jsvalue | Reject "ErrorJson option" | Progress jsvalue

fun worker_step :: "nat \<Rightarrow> worker_call \<Rightarrow> Worker \<times> port \<Rightarrow> Worker \<times> port" where
  "worker_step tid (Resolve d) s = snd (resolve tid d s)"
| "worker_step tid (Reject e) s = snd (reject tid e s)"
| "worker_step tid (Progress d) s = snd (progress tid d s)"

fun worker_run :: "nat \<Rightarrow> worker_call list \<Rightarrow> Worker \<times> port \<Rightarrow> Worker \<times> port" where
  "worker_run tid [] s = s"
| "worker_run tid (c # cs) s = worker_run tid cs (worker_step tid c s)"

fun is_Reject :: "worker_call \<Rightarrow> bool" where
  "is_Reject (Reject e) = True"
| "is_Reject _ = False"

section \<open>worker-loader: DefaultWorkerLoader\<close>

text \<open>
  A worker class is known by its name; \<open>new WorkerClass(workerConstructorArgs)\<close> gives an
  instance that remembers both. Calling \<open>new\<close> on \<open>undefined\<close> is a \<open>TypeError\<close>.
\<close>

datatype WorkerClass = WorkerClass string

record WorkerInstance =
  instanceOf :: WorkerClass
  constructorArgs :: jsvalue

datatype loader_error =
    UndefinedPointerError
  | Error string
  | TypeError string
  | ModuleError string

text \<open>
  What the loader asks of Node: \<open>process.cwd()\<close>, \<open>path.resolve\<close>, \<open>fs.existsSync\<close> and
  the \<open>default\<close> export of \<open>require(path)\<close>, which is \<open>None\<close> when the module has none.
\<close>

record loader_host =
  cwd :: string
  path_resolve :: "string list \<Rightarrow> string"
  existsSync :: "string \<Rightarrow> bool"
  require_default :: "string \<Rightarrow> loader_error + WorkerClass option"

text \<open>
  \<open>buildPath(filePath)\<close> of worker-loader.utils. For a \<open>.ts\<close> file it also registers
  ts-node, which changes no path.
\<close>

definition buildPath :: "loader_host \<Rightarrow> string \<Rightarrow> string" where
  "buildPath h filePath =
     (if suffix ''.ts'' filePath
      then path_resolve h [cwd h, ''src'', filePath]
      else path_resolve h
             [cwd h, ''build'', filePath @ (if suffix ''.js'' filePath then [] else ''.js'')])"

definition new_instance :: "WorkerClass option \<Rightarrow> jsvalue
    \<Rightarrow> loader_error + WorkerInstance" where
  "new_instance c args =
     (case c of
        None \<Rightarrow> Inl (TypeError ''WorkerClass is not a constructor'')
      | Some cls \<Rightarrow> Inr \<lparr> instanceOf = cls, constructorArgs = args \<rparr>)"

text \<open>
  \<open>load(pointer, workerConstructorArgs)\<close>. A pointer is falsy when it is \<open>undefined\<close> or
  \<open>null\<close> (\<open>None\<close>) or the empty string. \<open>bindings\<close> is the \<open>Map\<close> of the loader.
\<close>

definition load :: "loader_host \<Rightarrow> (string \<times> WorkerClass) list \<Rightarrow> string option \<Rightarrow> jsvalue
    \<Rightarrow> loader_error + WorkerInstance" where
  "load h bindings pointer workerConstructorArgs =
     (case pointer of
        None \<Rightarrow> Inl UndefinedPointerError
      | Some ptr \<Rightarrow>
          if ptr = [] then Inl UndefinedPointerError
          else
            (let filePath = buildPath h ptr in
             if existsSync h filePath then
               (case require_default h filePath of
                  Inl e \<Rightarrow> Inl e
                | Inr c \<Rightarrow> new_instance c workerConstructorArgs)
             else if ptr \<in> fst ` set bindings then
               new_instance (map_of bindings ptr) workerConstructorArgs
             else
               Inl (Error (''A valid path to a worker was not specified or a worker was not assigned to the given name '' @ ptr))))"

section \<open>worker-pool: WorkerPool\<close>

text \<open>
  A handshake of a proxy with its thread (\<open>setup\<close>, \<open>load\<close>, \<open>dispose\<close>) is decided by the
  thread: it answers with the completion message, with the failure message, or never.
  The promise a pool method returns is accordingly resolved, rejected or left pending.
\<close>

datatype handshake = Complete | Failure jsvalue | NoReply

datatype 'a promise = Resolved 'a | Rejected jsvalue | Pending

text \<open>What a pool method does to its collaborators, in order.\<close>

datatype event =
    ProxySetup nat
  | ProxyLoad nat "string option"
  | ProxyDispose nat
  | ReleaseHandler nat jsvalue
  | ConsoleLog string

text \<open>
  \<open>WorkerProxy\<close>: \<open>threadId\<close> is what the getter \<open>id\<close> returns
  (\<open>this.worker.threadId\<close>), \<open>proxyPointer\<close> is the field \<open>_pointer\<close>.
\<close>

record WorkerProxy =
  threadId :: nat
  proxyPointer :: "string option"

record WorkerPoolOptions =
  threadsCount :: number
  inviolableThreadsCount :: number
  sharedData :: jsvalue
  workerLoaderPath :: "string option"

text \<open>
  The fields of \<open>WorkerPool\<close>. \<open>activeWorkersByPid\<close> is the \<open>Map\<close> in insertion order, its
  \<open>size\<close> the length of the list. \<open>workerReleaseHandler\<close> tells whether a handler is
  registered; calling it is the event \<open>ReleaseHandler\<close>.
\<close>

record WorkerPool =
  workerMaxCount :: number
  poolLoaderPath :: "string option"
  availableWorkers :: "WorkerProxy list"
  activeWorkersByPid :: "(nat \<times> WorkerProxy) list"
  poolSharedData :: jsvalue
  workerReleaseHandler :: bool

text \<open>The pool as \<open>new WorkerPool()\<close> leaves it.\<close>

definition new_WorkerPool :: WorkerPool where
  "new_WorkerPool =
     \<lparr> workerMaxCount = Undefined, poolLoaderPath = None, availableWorkers = [],
       activeWorkersByPid = [], poolSharedData = JUndefined,
       workerReleaseHandler = False \<rparr>"

text \<open>
  The host of the pool: the number of CPUs, the thread id Node gives to the \<open>i\<close>-th
  worker thread the pool starts, and the answer of that thread to the setup handshake.
\<close>

record host =
  cpus :: nat
  threadIdOf :: "nat \<Rightarrow> nat"
  setupReply :: "nat \<Rightarrow> handshake"

text \<open>
  The loop of \<open>setup\<close>: \<open>for (let i = 0; i < this.workerMaxCount; i++)\<close>, creating a
  proxy, awaiting its setup handshake and pushing it on the idle list.
\<close>

function setup_loop :: "host \<Rightarrow> nat \<Rightarrow> event list \<Rightarrow> WorkerPool
    \<Rightarrow> unit promise \<times> event list \<times> WorkerPool" where
  "setup_loop h i evs p =
     (if js_lt (Num (int i)) (workerMaxCount p) then
        (let worker = \<lparr> threadId = threadIdOf h i, proxyPointer = None \<rparr>;
             evs' = evs @ [ProxySetup (threadIdOf h i)]
         in case setupReply h i of
              Complete \<Rightarrow>
                setup_loop h (Suc i) evs'
                  (p\<lparr> availableWorkers := availableWorkers p @ [worker] \<rparr>)
            | Failure e \<Rightarrow> (Rejected e, evs', p)
            | NoReply \<Rightarrow> (Pending, evs', p))
      else (Resolved (), evs, p))"
  by pat_completeness auto
termination
  by (relation "measure (\<lambda>(h, i, evs, p).
        case workerMaxCount p of Num m \<Rightarrow> nat m - i | _ \<Rightarrow> 0)")
     (auto split: number.splits)

declare setup_loop.simps [simp del]

text \<open>\<open>WorkerPool.setup(options)\<close> (\<open>setup\<close> is a keyword of Isabelle).\<close>

definition pool_setup :: "host \<Rightarrow> WorkerPoolOptions \<Rightarrow> WorkerPool
    \<Rightarrow> unit promise \<times> event list \<times> WorkerPool" where
  "pool_setup h options p =
     setup_loop h 0 []
       (p\<lparr> poolLoaderPath := workerLoaderPath options,
           poolSharedData := sharedData options,
           workerMaxCount :=
             (if js_gt (threadsCount options) (inviolableThreadsCount options)
              then getWorkersCount (cpus h) (threadsCount options)
                     (inviolableThreadsCount options)
              else threadsCount options) \<rparr>)"

text \<open>\<open>WorkerPool.create\<close>: a new pool, set up.\<close>

definition pool_create :: "host \<Rightarrow> WorkerPoolOptions
    \<Rightarrow> unit promise \<times> event list \<times> WorkerPool" where
  "pool_create h options = pool_setup h options new_WorkerPool"

text \<open>
  \<open>getWorker(pointer)\<close>; \<open>reply\<close> is the thread's answer to the load handshake.
  \<open>load\<close> stores the pointer in the proxy before it sends the message, and the proxy is
  in the busy map before \<open>load\<close> is awaited.
\<close>

definition getWorker :: "string option \<Rightarrow> handshake \<Rightarrow> WorkerPool
    \<Rightarrow> WorkerProxy option promise \<times> event list \<times> WorkerPool" where
  "getWorker ptr reply p =
     (if js_lt (Num (int (length (activeWorkersByPid p)))) (workerMaxCount p) then
        (case availableWorkers p of
           [] \<Rightarrow> (Resolved None, [], p)
         | w # rest \<Rightarrow>
             (let worker = w\<lparr> proxyPointer := ptr \<rparr>;
                  p' = p\<lparr> availableWorkers := rest,
                         activeWorkersByPid :=
                           AList.update (threadId w) worker (activeWorkersByPid p) \<rparr>;
                  evs = [ProxyLoad (threadId w) ptr]
              in case reply of
                   Complete \<Rightarrow> (Resolved (Some worker), evs, p')
                 | Failure e \<Rightarrow> (Rejected e, evs, p')
                 | NoReply \<Rightarrow> (Pending, evs, p')))
      else (Resolved None, [], p))"

text \<open>
  \<open>releaseWorker(id, data)\<close>; \<open>reply\<close> is the thread's answer to the dispose handshake.
\<close>

definition releaseWorker :: "nat \<Rightarrow> jsvalue \<Rightarrow> handshake \<Rightarrow> WorkerPool
    \<Rightarrow> unit promise \<times> event list \<times> WorkerPool" where
  "releaseWorker i d reply p =
     (case map_of (activeWorkersByPid p) i of
        Some worker \<Rightarrow>
          (case reply of
             Complete \<Rightarrow>
               (Resolved (),
                ProxyDispose (threadId worker) #
                  (if workerReleaseHandler p then [ReleaseHandler i d] else []),
                p\<lparr> activeWorkersByPid := AList.delete i (activeWorkersByPid p),
                   availableWorkers :=
                     (if js_lt (Num (int (length (availableWorkers p)))) (workerMaxCount p)
                      then availableWorkers p @ [worker]
                      else availableWorkers p) \<rparr>)
           | Failure e \<Rightarrow> (Rejected e, [ProxyDispose (threadId worker)], p)
           | NoReply \<Rightarrow> (Pending, [ProxyDispose (threadId worker)], p))
      | None \<Rightarrow>
          (Resolved (),
           [ConsoleLog (''No worker with the specified ID #'' @ show_nat i @ '' was found'')],
           p))"

text \<open>\<open>onWorkerRelease(handler)\<close>.\<close>

definition onWorkerRelease :: "WorkerPool \<Rightarrow> WorkerPool" where
  "onWorkerRelease p = p\<lparr> workerReleaseHandler := True \<rparr>"

text \<open>A call of the pool's client, and a sequence of calls run one after the other.\<close>

datatype pool_call =
    GetWorker "string option" handshake
  | ReleaseWorker nat jsvalue handshake
  | OnWorkerRelease

fun pool_step :: "pool_call \<Rightarrow> WorkerPool \<Rightarrow> WorkerPool" where
  "pool_step (GetWorker ptr reply) p = snd (snd (getWorker ptr reply p))"
| "pool_step (ReleaseWorker i d reply) p = snd (snd (releaseWorker i d reply p))"
| "pool_step OnWorkerRelease p = onWorkerRelease p"

fun pool_run :: "pool_call list \<Rightarrow> WorkerPool \<Rightarrow> WorkerPool" where
  "pool_run [] p = p"
| "pool_run (c # cs) p = pool_run cs (pool_step c p)"

text \<open>
  A client that asks for several workers in a row, and the thread ids of the proxies it
  was given.
\<close>

fun getWorkers :: "(string option \<times> handshake) list \<Rightarrow> WorkerPool
    \<Rightarrow> WorkerProxy option promise list \<times> WorkerPool" where
  "getWorkers [] p = ([], p)"
| "getWorkers ((ptr, reply) # rs) p =
     (case getWorker ptr reply p of
        (r, evs, p') \<Rightarrow> (case getWorkers rs p' of (res, p'') \<Rightarrow> (r # res, p'')))"

fun handed_out :: "WorkerProxy option promise list \<Rightarrow> nat list" where
  "handed_out [] = []"
| "handed_out (Resolved (Some w) # rs) = threadId w # handed_out rs"
| "handed_out (_ # rs) = handed_out rs"

text \<open>
  The invariant of a pool with ceiling \<open>n\<close>: the ids of all proxies are distinct, every
  proxy is idle or busy, and the busy map is keyed by the id of its proxy.
\<close>

definition pool_inv :: "nat \<Rightarrow> WorkerPool \<Rightarrow> bool" where
  "pool_inv n p \<longleftrightarrow>
     workerMaxCount p = Num (int n) \<and>
     distinct (map threadId (availableWorkers p) @ map fst (activeWorkersByPid p)) \<and>
     length (availableWorkers p) + length (activeWorkersByPid p) = n \<and>
     (\<forall>kw \<in> set (activeWorkersByPid p). threadId (snd kw) = fst kw)"

section \<open>Sample inputs\<close>

definition sample_host :: host where
  "sample_host = \<lparr> cpus = 4, threadIdOf = Suc, setupReply = (\<lambda>i. Complete) \<rparr>"

definition sample_options :: WorkerPoolOptions where
  "sample_options = \<lparr> threadsCount = Num 2, inviolableThreadsCount = Num 0,
     sharedData = JNull, workerLoaderPath = None \<rparr>"

definition sample_pool :: WorkerPool where
  "sample_pool = \<lparr> workerMaxCount = Num 2, poolLoaderPath = None,
     availableWorkers = [\<lparr> threadId = 1, proxyPointer = None \<rparr>,
                         \<lparr> threadId = 2, proxyPointer = None \<rparr>],
     activeWorkersByPid = [], poolSharedData = JNull, workerReleaseHandler = False \<rparr>"

definition sample_calls :: "pool_call list" where
  "sample_calls =
     [GetWorker (Some ''a'') Complete, GetWorker None (Failure JNull),
      GetWorker None Complete, ReleaseWorker 1 JNull Complete,
      ReleaseWorker 1 JNull Complete, ReleaseWorker 2 JNull NoReply]"

definition sample_pool_later :: WorkerPool where
  "sample_pool_later = \<lparr> workerMaxCount = Num 2, poolLoaderPath = None,
     availableWorkers = [\<lparr> threadId = 1, proxyPointer = Some ''a'' \<rparr>],
     activeWorkersByPid = [(2, \<lparr> threadId = 2, proxyPointer = None \<rparr>)],
     poolSharedData = JNull, workerReleaseHandler = False \<rparr>"

definition sample_busy_pool :: WorkerPool where
  "sample_busy_pool = \<lparr> workerMaxCount = Num 2, poolLoaderPath = None,
     availableWorkers = [],
     activeWorkersByPid = [(1, \<lparr> threadId = 1, proxyPointer = Some ''a'' \<rparr>),
                           (2, \<lparr> threadId = 2, proxyPointer = None \<rparr>)],
     poolSharedData = JNull, workerReleaseHandler = True \<rparr>"

definition sample_gap_pool :: WorkerPool where
  "sample_gap_pool = \<lparr> workerMaxCount = Num 3, poolLoaderPath = None,
     availableWorkers = [], activeWorkersByPid = [],
     poolSharedData = JNull, workerReleaseHandler = False \<rparr>"

definition sample_pool_cycled :: WorkerPool where
  "sample_pool_cycled = \<lparr> workerMaxCount = Num 2, poolLoaderPath = None,
     availableWorkers = [\<lparr> threadId = 2, proxyPointer = None \<rparr>,
                         \<lparr> threadId = 1, proxyPointer = None \<rparr>],
     activeWorkersByPid = [],
     poolSharedData = JNull, workerReleaseHandler = False \<rparr>"

definition sample_pool_acquired :: WorkerPool where
  "sample_pool_acquired = \<lparr> workerMaxCount = Num 2, poolLoaderPath = None,
     availableWorkers = [\<lparr> threadId = 1, proxyPointer = None \<rparr>],
     activeWorkersByPid = [(2, \<lparr> threadId = 2, proxyPointer = Some ''a'' \<rparr>)],
     poolSharedData = JNull, workerReleaseHandler = False \<rparr>"

definition sample_pool_released :: WorkerPool where
  "sample_pool_released = \<lparr> workerMaxCount = Num 2, poolLoaderPath = None,
     availableWorkers = [\<lparr> threadId = 1, proxyPointer = None \<rparr>,
                         \<lparr> threadId = 2, proxyPointer = Some ''a'' \<rparr>],
     activeWorkersByPid = [],
     poolSharedData = JNull, workerReleaseHandler = False \<rparr>"

definition sample_error :: ErrorJson where
  "sample_error = \<lparr> own = [(''code'', JNumber 7)],
     inherited = [(''message'', JString ''boom''), (''stack'', JString ''at run''),
                  (''name'', JString ''Error'')] \<rparr>"

definition sample_error_json :: ErrorJson where
  "sample_error_json =
     \<lparr> own = [(''message'', JString ''boom''), (''stack'', JString ''at run''),
              (''name'', JString ''Error''), (''code'', JNumber 7)],
       inherited = [] \<rparr>"

definition sample_loader_host :: loader_host where
  "sample_loader_host =
     \<lparr> cwd = ''app'',
       path_resolve = (\<lambda>parts. concat (map (\<lambda>s. CHR ''/'' # s) parts)),
       existsSync = (\<lambda>f. f = ''/app/build/worker.js''),
       require_default = (\<lambda>f. Inr (Some (WorkerClass ''FileWorker''))) \<rparr>"

definition sample_bindings :: "(string \<times> WorkerClass) list" where
  "sample_bindings = [(''worker'', WorkerClass ''Shadowed''), (''other'', WorkerClass ''Bound'')]"

section \<open>The message envelope\<close>

lemma map_of_filter_keys:
  "k \<notin> S \<Longrightarrow> map_of (filter (\<lambda>kv. fst kv \<notin> S) xs) k = map_of xs k"
  by (induction xs) auto

lemma get_prop_normalizeError:
  assumes "k \<in> {''message'', ''stack'', ''name''} \<or> k \<in> fst ` set (own e)"
  shows "get_prop (normalizeError e) k = get_prop e k"
proof (cases "k \<in> {''message'', ''stack'', ''name''}")
  case True
  then show ?thesis by (auto simp: normalizeError_def get_prop_def)
next
  case False
  with assms have "k \<in> fst ` set (own e)" by blast
  then obtain v where v: "map_of (own e) k = Some v"
    by (metis domD dom_map_of_conv_image_fst)
  have "map_of (filter (\<lambda>kv. fst kv \<notin> {''message'', ''stack'', ''name''}) (own e)) k
          = map_of (own e) k"
    using False by (rule map_of_filter_keys)
  with v False show ?thesis by (auto simp: normalizeError_def get_prop_def)
qed

lemma normalizeError_idem: "normalizeError (normalizeError e) = normalizeError e"
  by (simp add: normalizeError_def get_prop_def Let_def)

lemma create_toJson_fields:
  "workerId (create (toJson m)) = workerId m \<and> type (create (toJson m)) = type m \<and>
   name (create (toJson m)) = name m \<and> data (create (toJson m)) = data m"
  by (simp add: create_def toJson_def)

lemma create_toJson_error:
  "error (create (toJson m)) =
     Some (normalizeError (case error m of Some e \<Rightarrow> e | None \<Rightarrow> emptyObject))"
  by (cases "error m") (simp_all add: create_def toJson_def normalizeError_idem)

text \<open>
  C3, the claim as stated fails. A message without error, here
  \<open>WorkerMessage.taskResolved(1, 'done')\<close>, is serialized with \<open>error: {}\<close>; \<open>create\<close>
  finds that object truthy and builds
  \<open>{message: undefined, stack: undefined, name: undefined}\<close> from it. The decoded
  message has an error where the original had none.
\<close>

theorem envelope_round_trip_counterexample:
  "error (taskResolved 1 (JString ''done'')) = None \<and>
   error (create (toJson (taskResolved 1 (JString ''done'')))) =
     Some \<lparr> own = [(''message'', JUndefined), (''stack'', JUndefined), (''name'', JUndefined)],
            inherited = [] \<rparr> \<and>
   create (toJson (taskResolved 1 (JString ''done''))) \<noteq> taskResolved 1 (JString ''done'')"
  by (simp add: create_def toJson_def taskResolved_def normalizeError_def emptyObject_def
      get_prop_def)

text \<open>
  C3, amended. Decoding the encoding of a message \<open>m\<close> keeps \<open>workerId\<close>, \<open>type\<close>,
  \<open>name\<close> and \<open>data\<close>. The serialized record always has an \<open>error\<close> object: the
  normalisation \<open>{message, stack, name, ...rest}\<close> of the error of \<open>m\<close>, or \<open>{}\<close> when
  \<open>m\<close> has none. The decoded message always has an error too: the same normalisation
  when \<open>m\<close> has an error, and the normalisation of \<open>{}\<close>, whose three fields are
  \<open>undefined\<close>, when \<open>m\<close> has none. The normalisation of an error \<open>e\<close> reads like \<open>e\<close> at
  \<open>message\<close>, \<open>stack\<close>, \<open>name\<close> and every own enumerable property, and a message whose
  error is already normalised comes back equal, error included.
\<close>

theorem envelope_round_trip:
  "workerId (create (toJson m)) = workerId m \<and> type (create (toJson m)) = type m \<and>
   name (create (toJson m)) = name m \<and> data (create (toJson m)) = data m \<and>
   error (toJson m) =
     Some (case error m of Some e \<Rightarrow> normalizeError e | None \<Rightarrow> emptyObject) \<and>
   error (create (toJson m)) =
     Some (normalizeError (case error m of Some e \<Rightarrow> e | None \<Rightarrow> emptyObject)) \<and>
   normalizeError emptyObject =
     \<lparr> own = [(''message'', JUndefined), (''stack'', JUndefined), (''name'', JUndefined)],
       inherited = [] \<rparr> \<and>
   (error m = Some e \<and> (k \<in> {''message'', ''stack'', ''name''} \<or> k \<in> fst ` set (own e)) \<longrightarrow>
      get_prop (normalizeError e) k = get_prop e k) \<and>
   (error m = Some (normalizeError e') \<longrightarrow> create (toJson m) = m)"
proof (intro conjI impI)
  show "error (toJson m) =
     Some (case error m of Some e \<Rightarrow> normalizeError e | None \<Rightarrow> emptyObject)"
    by (simp add: toJson_def)
  show "error (create (toJson m)) =
     Some (normalizeError (case error m of Some e \<Rightarrow> e | None \<Rightarrow> emptyObject))"
    by (rule create_toJson_error)
  show "normalizeError emptyObject =
     \<lparr> own = [(''message'', JUndefined), (''stack'', JUndefined), (''name'', JUndefined)],
       inherited = [] \<rparr>"
    by (simp add: normalizeError_def emptyObject_def get_prop_def)
next
  assume "error m = Some e \<and> (k \<in> {''message'', ''stack'', ''name''} \<or> k \<in> fst ` set (own e))"
  then show "get_prop (normalizeError e) k = get_prop e k"
    by (simp add: get_prop_normalizeError)
next
  assume "error m = Some (normalizeError e')"
  then show "create (toJson m) = m"
    by (simp add: create_def toJson_def normalizeError_idem)
qed (simp_all add: create_toJson_fields)

theorem envelope_round_trip_witness:
  "error (taskRejected 3 (Some sample_error)) = Some sample_error \<and>
   ''code'' \<in> fst ` set (own sample_error) \<and>
   get_prop (normalizeError sample_error) ''code'' = JNumber 7 \<and>
   get_prop sample_error ''code'' = JNumber 7 \<and>
   normalizeError sample_error = sample_error_json \<and>
   error (taskRejected 3 (Some sample_error_json)) = Some (normalizeError sample_error) \<and>
   create (toJson (taskRejected 3 (Some sample_error_json)))
     = taskRejected 3 (Some sample_error_json)"
proof -
  have a: "error (taskRejected 3 (Some sample_error)) = Some sample_error \<and>
     (''code'' \<in> {''message'', ''stack'', ''name''} \<or> ''code'' \<in> fst ` set (own sample_error))"
    by (simp add: taskRejected_def sample_error_def)
  have n: "normalizeError sample_error = sample_error_json"
    by (simp add: normalizeError_def sample_error_def sample_error_json_def get_prop_def)
  have b: "error (taskRejected 3 (Some sample_error_json)) = Some (normalizeError sample_error)"
    by (simp add: taskRejected_def n)
  have c: "get_prop sample_error ''code'' = JNumber 7"
    by (simp add: sample_error_def get_prop_def)
  have d: "''code'' \<in> fst ` set (own sample_error)"
    by (simp add: sample_error_def)
  show ?thesis
    using envelope_round_trip [of "taskRejected 3 (Some sample_error)" sample_error "''code''"]
      envelope_round_trip [of "taskRejected 3 (Some sample_error_json)" _ _ sample_error]
      a b c d n
    by simp
qed

section \<open>The worker unit\<close>

lemma worker_step_isRejected:
  "isRejected (fst (worker_step tid c s)) \<longleftrightarrow> isRejected (fst s) \<or> is_Reject c"
  by (cases c; cases s) (simp_all add: resolve_def reject_def progress_def)

lemma worker_run_isRejected:
  "isRejected (fst (worker_run tid cs s)) \<longleftrightarrow> isRejected (fst s) \<or> list_ex is_Reject cs"
  by (induction cs arbitrary: s) (auto simp: worker_step_isRejected)

lemma new_worker_run_isRejected:
  "isRejected (fst (worker_run tid cs (new_Worker, posted))) \<longleftrightarrow> list_ex is_Reject cs"
  by (simp add: worker_run_isRejected new_Worker_def)

text \<open>
  C4. Settle-once asymmetry. After any sequence \<open>cs\<close> of calls on a new worker,
  \<open>resolve(d)\<close> posts the TaskResolved message exactly when \<open>cs\<close> holds no \<open>reject\<close>,
  and posts nothing otherwise; \<open>reject(e)\<close> always posts the TaskRejected message and
  sets the flag, a second \<open>reject\<close> posts again; and a \<open>resolve\<close> straight after a
  \<open>resolve\<close> posts again when \<open>cs\<close> holds no \<open>reject\<close>.
\<close>

theorem settle_once_asymmetry:
  "snd (snd (resolve tid d (worker_run tid cs (new_Worker, posted)))) =
     snd (worker_run tid cs (new_Worker, posted))
       @ (if list_ex is_Reject cs then [] else [toJson (taskResolved tid d)]) \<and>
   snd (snd (reject tid e (worker_run tid cs (new_Worker, posted)))) =
     snd (worker_run tid cs (new_Worker, posted)) @ [toJson (taskRejected tid e)] \<and>
   isRejected (fst (snd (reject tid e (worker_run tid cs (new_Worker, posted))))) \<and>
   snd (snd (reject tid e'
       (snd (reject tid e (worker_run tid cs (new_Worker, posted)))))) =
     snd (worker_run tid cs (new_Worker, posted))
       @ [toJson (taskRejected tid e), toJson (taskRejected tid e')] \<and>
   snd (snd (resolve tid d'
       (snd (resolve tid d (worker_run tid cs (new_Worker, posted)))))) =
     snd (worker_run tid cs (new_Worker, posted))
       @ (if list_ex is_Reject cs then []
          else [toJson (taskResolved tid d), toJson (taskResolved tid d')]) \<and>
   name (toJson (taskResolved tid d)) = ''task_resolved'' \<and>
   name (toJson (taskRejected tid e)) = ''task_rejected''"
proof -
  obtain w ps where s: "worker_run tid cs (new_Worker, posted) = (w, ps)"
    by (cases "worker_run tid cs (new_Worker, posted)")
  have r: "isRejected w \<longleftrightarrow> list_ex is_Reject cs"
    using new_worker_run_isRejected [of tid cs posted] s by simp
  show ?thesis
    unfolding s using r
    by (simp add: resolve_def reject_def toJson_def taskResolved_def taskRejected_def)
qed

theorem settle_once_asymmetry_witness:
  "snd (worker_run 1 [Progress (JNumber 1), Resolve (JString ''a''), Reject None,
                      Resolve (JString ''b''), Reject None] (new_Worker, []))
     = [toJson (taskProgress 1 (JNumber 1)), toJson (taskResolved 1 (JString ''a'')),
        toJson (taskRejected 1 None), toJson (taskRejected 1 None)] \<and>
   snd (snd (resolve 1 (JString ''b'')
         (worker_run 1 [Resolve (JString ''a''), Reject None] (new_Worker, []))))
     = snd (worker_run 1 [Resolve (JString ''a''), Reject None] (new_Worker, [])) \<and>
   snd (snd (resolve 1 (JString ''b'')
         (worker_run 1 [Resolve (JString ''a''), Progress JNull] (new_Worker, []))))
     = snd (worker_run 1 [Resolve (JString ''a''), Progress JNull] (new_Worker, []))
         @ [toJson (taskResolved 1 (JString ''b''))]"
proof -
  have a: "list_ex is_Reject [Resolve (JString ''a''), Reject None]" by simp
  have b: "\<not> list_ex is_Reject [Resolve (JString ''a''), Progress JNull]" by simp
  have c: "snd (worker_run 1 [Progress (JNumber 1), Resolve (JString ''a''), Reject None,
                      Resolve (JString ''b''), Reject None] (new_Worker, []))
     = [toJson (taskProgress 1 (JNumber 1)), toJson (taskResolved 1 (JString ''a'')),
        toJson (taskRejected 1 None), toJson (taskRejected 1 None)]"
    by (simp add: resolve_def reject_def progress_def new_Worker_def)
  show ?thesis
    using settle_once_asymmetry [of 1 "JString ''b''" "[Resolve (JString ''a''), Reject None]" "[]"]
      settle_once_asymmetry [of 1 "JString ''b''" "[Resolve (JString ''a''), Progress JNull]" "[]"]
      a b c
    by simp
qed

text \<open>
  C9. The value \<open>resolve\<close> returns: \<open>undefined\<close> when a \<open>reject\<close> came before it on the
  same worker, the literal \<open>'task_resolved'\<close> otherwise; in the first case nothing is
  posted and the worker is unchanged.
\<close>

theorem resolve_after_reject_returns_undefined:
  "fst (resolve tid d (worker_run tid cs (new_Worker, posted))) =
     (if list_ex is_Reject cs then None else Some ''task_resolved'') \<and>
   (list_ex is_Reject cs \<longrightarrow>
      resolve tid d (worker_run tid cs (new_Worker, posted)) =
        (None, worker_run tid cs (new_Worker, posted)))"
proof -
  obtain w ps where s: "worker_run tid cs (new_Worker, posted) = (w, ps)"
    by (cases "worker_run tid cs (new_Worker, posted)")
  have r: "isRejected w \<longleftrightarrow> list_ex is_Reject cs"
    using new_worker_run_isRejected [of tid cs posted] s by simp
  show ?thesis
    unfolding s using r by (simp add: resolve_def)
qed

theorem resolve_after_reject_returns_undefined_witness:
  "list_ex is_Reject [Reject (Some sample_error)] \<and>
   resolve 1 (JString ''late'') (worker_run 1 [Reject (Some sample_error)] (new_Worker, []))
     = (None, \<lparr> isRejected = True \<rparr>, [toJson (taskRejected 1 (Some sample_error))]) \<and>
   fst (resolve 1 (JString ''first'') (worker_run 1 [] (new_Worker, [])))
     = Some ''task_resolved''"
proof -
  have a: "list_ex is_Reject [Reject (Some sample_error)]" by simp
  have b: "worker_run 1 [Reject (Some sample_error)] (new_Worker, [])
     = (\<lparr> isRejected = True \<rparr>, [toJson (taskRejected 1 (Some sample_error))])"
    by (simp add: reject_def new_Worker_def)
  show ?thesis
    using resolve_after_reject_returns_undefined
        [of 1 "JString ''late''" "[Reject (Some sample_error)]" "[]"]
      resolve_after_reject_returns_undefined [of 1 "JString ''first''" "[]" "[]"]
      a b
    by simp
qed

section \<open>The loader\<close>

lemma sample_buildPath:
  "buildPath sample_loader_host ''worker'' = ''/app/build/worker.js''"
  "buildPath sample_loader_host ''other'' = ''/app/build/other.js''"
  "buildPath sample_loader_host ''missing-pointer'' = ''/app/build/missing-pointer.js''"
  by code_simp+

text \<open>
  C8. Resolution order of \<open>load\<close>. A falsy pointer gives \<open>UndefinedPointerError\<close>. For
  any other pointer, a file at the built path decides alone: the instance is made from
  the default export of that file, whatever the bindings hold. Without such a file a
  binding for the pointer gives the instance, and with neither the error whose message
  ends with the pointer is thrown. Whenever \<open>load\<close> returns an instance, it holds the
  constructor arguments and its class is the one the file, or failing a file the
  binding, resolved.
\<close>

theorem loader_resolution_order:
  "(pointer = None \<or> pointer = Some [] \<longrightarrow>
      load h bindings pointer args = Inl UndefinedPointerError) \<and>
   (ptr \<noteq> [] \<and> existsSync h (buildPath h ptr) \<longrightarrow>
      load h bindings (Some ptr) args =
        (case require_default h (buildPath h ptr) of
           Inl e \<Rightarrow> Inl e
         | Inr c \<Rightarrow> new_instance c args)) \<and>
   (ptr \<noteq> [] \<and> \<not> existsSync h (buildPath h ptr) \<and> map_of bindings ptr = Some cls \<longrightarrow>
      load h bindings (Some ptr) args = Inr \<lparr> instanceOf = cls, constructorArgs = args \<rparr>) \<and>
   (ptr \<noteq> [] \<and> \<not> existsSync h (buildPath h ptr) \<and> map_of bindings ptr = None \<longrightarrow>
      load h bindings (Some ptr) args =
        Inl (Error (''A valid path to a worker was not specified or a worker was not assigned to the given name '' @ ptr))) \<and>
   (load h bindings pointer args = Inr worker \<longrightarrow>
      (\<exists>p. pointer = Some p \<and> p \<noteq> [] \<and> constructorArgs worker = args \<and>
         (if existsSync h (buildPath h p)
          then require_default h (buildPath h p) = Inr (Some (instanceOf worker))
          else map_of bindings p = Some (instanceOf worker))))"
proof (intro conjI impI)
  assume "pointer = None \<or> pointer = Some []"
  then show "load h bindings pointer args = Inl UndefinedPointerError"
    by (auto simp: load_def)
next
  assume "ptr \<noteq> [] \<and> existsSync h (buildPath h ptr)"
  then show "load h bindings (Some ptr) args =
        (case require_default h (buildPath h ptr) of
           Inl e \<Rightarrow> Inl e
         | Inr c \<Rightarrow> new_instance c args)"
    by (simp add: load_def)
next
  assume a: "ptr \<noteq> [] \<and> \<not> existsSync h (buildPath h ptr) \<and> map_of bindings ptr = Some cls"
  then have "ptr \<in> fst ` set bindings"
    by (metis domI dom_map_of_conv_image_fst)
  with a show "load h bindings (Some ptr) args
      = Inr \<lparr> instanceOf = cls, constructorArgs = args \<rparr>"
    by (simp add: load_def new_instance_def)
next
  assume a: "ptr \<noteq> [] \<and> \<not> existsSync h (buildPath h ptr) \<and> map_of bindings ptr = None"
  then have "ptr \<notin> fst ` set bindings"
    by (simp add: map_of_eq_None_iff)
  with a show "load h bindings (Some ptr) args =
        Inl (Error (''A valid path to a worker was not specified or a worker was not assigned to the given name '' @ ptr))"
    by (simp add: load_def)
next
  assume a: "load h bindings pointer args = Inr worker"
  then obtain p where p: "pointer = Some p" "p \<noteq> []"
    by (cases pointer) (auto simp: load_def split: if_splits)
  show "\<exists>p. pointer = Some p \<and> p \<noteq> [] \<and> constructorArgs worker = args \<and>
         (if existsSync h (buildPath h p)
          then require_default h (buildPath h p) = Inr (Some (instanceOf worker))
          else map_of bindings p = Some (instanceOf worker))"
  proof (cases "existsSync h (buildPath h p)")
    case True
    with a p show ?thesis
      by (auto simp: load_def new_instance_def split: sum.splits option.splits)
  next
    case False
    with a p show ?thesis
      by (auto simp: load_def new_instance_def split: if_splits option.splits)
  qed
qed

theorem loader_resolution_order_witness:
  "load sample_loader_host sample_bindings (Some []) JNull = Inl UndefinedPointerError \<and>
   load sample_loader_host sample_bindings None JNull = Inl UndefinedPointerError \<and>
   existsSync sample_loader_host (buildPath sample_loader_host ''worker'') \<and>
   map_of sample_bindings ''worker'' = Some (WorkerClass ''Shadowed'') \<and>
   load sample_loader_host sample_bindings (Some ''worker'') JNull
     = Inr \<lparr> instanceOf = WorkerClass ''FileWorker'', constructorArgs = JNull \<rparr> \<and>
   \<not> existsSync sample_loader_host (buildPath sample_loader_host ''other'') \<and>
   load sample_loader_host sample_bindings (Some ''other'') JNull
     = Inr \<lparr> instanceOf = WorkerClass ''Bound'', constructorArgs = JNull \<rparr> \<and>
   \<not> existsSync sample_loader_host (buildPath sample_loader_host ''missing-pointer'') \<and>
   map_of sample_bindings ''missing-pointer'' = None \<and>
   load sample_loader_host sample_bindings (Some ''missing-pointer'') JNull
     = Inl (Error ''A valid path to a worker was not specified or a worker was not assigned to the given name missing-pointer'') \<and>
   require_default sample_loader_host (buildPath sample_loader_host ''worker'')
     = Inr (Some (WorkerClass ''FileWorker''))"
proof -
  have e1: "''worker'' \<noteq> [] \<and> existsSync sample_loader_host (buildPath sample_loader_host ''worker'')"
    by (simp add: sample_buildPath) (simp add: sample_loader_host_def)
  have r1: "require_default sample_loader_host (buildPath sample_loader_host ''worker'')
     = Inr (Some (WorkerClass ''FileWorker''))"
    by (simp add: sample_loader_host_def)
  have e2: "''other'' \<noteq> [] \<and> \<not> existsSync sample_loader_host (buildPath sample_loader_host ''other'')
      \<and> map_of sample_bindings ''other'' = Some (WorkerClass ''Bound'')"
    by (simp add: sample_buildPath) (simp add: sample_loader_host_def sample_bindings_def)
  have e3: "''missing-pointer'' \<noteq> [] \<and>
      \<not> existsSync sample_loader_host (buildPath sample_loader_host ''missing-pointer'')
      \<and> map_of sample_bindings ''missing-pointer'' = None"
    by (simp add: sample_buildPath) (simp add: sample_loader_host_def sample_bindings_def)
  have b: "map_of sample_bindings ''worker'' = Some (WorkerClass ''Shadowed'')"
    by (simp add: sample_bindings_def)
  have l1: "load sample_loader_host sample_bindings (Some ''worker'') JNull
     = Inr \<lparr> instanceOf = WorkerClass ''FileWorker'', constructorArgs = JNull \<rparr>"
    using loader_resolution_order [of "Some []" sample_loader_host sample_bindings JNull
        "''worker''"] e1 r1
    by (simp add: new_instance_def)
  have m: "''A valid path to a worker was not specified or a worker was not assigned to the given name '' @ ''missing-pointer''
     = ''A valid path to a worker was not specified or a worker was not assigned to the given name missing-pointer''"
    by simp
  show ?thesis
    using loader_resolution_order [of "Some []" sample_loader_host sample_bindings JNull
        "''other''" "WorkerClass ''Bound''"]
      loader_resolution_order [of None sample_loader_host sample_bindings JNull
        "''missing-pointer''"]
      loader_resolution_order [of "Some ''worker''" sample_loader_host sample_bindings JNull
        "''worker''" _ "\<lparr> instanceOf = WorkerClass ''FileWorker'', constructorArgs = JNull \<rparr>"]
      e1 e2 e3 r1 b l1
    unfolding m by simp
qed

section \<open>The pool ceiling\<close>

lemma setup_loop_workerMaxCount:
  "workerMaxCount (snd (snd (setup_loop h i evs p))) = workerMaxCount p"
proof (induction h i evs p rule: setup_loop.induct)
  case (1 h i evs p)
  show ?case
  proof (cases "js_lt (Num (int i)) (workerMaxCount p)")
    case False
    then show ?thesis by (simp add: setup_loop.simps [of h i evs p])
  next
    case True
    show ?thesis
    proof (cases "setupReply h i")
      case Complete
      with True "1.IH" [OF True refl refl Complete] show ?thesis
        by (simp add: setup_loop.simps [of h i evs p])
    next
      case (Failure e)
      with True show ?thesis by (simp add: setup_loop.simps [of h i evs p])
    next
      case NoReply
      with True show ?thesis by (simp add: setup_loop.simps [of h i evs p])
    qed
  qed
qed

lemma setup_workerMaxCount:
  "workerMaxCount (snd (snd (pool_setup h options p))) =
     (if js_gt (threadsCount options) (inviolableThreadsCount options)
      then getWorkersCount (cpus h) (threadsCount options) (inviolableThreadsCount options)
      else threadsCount options)"
  by (simp add: pool_setup_def setup_loop_workerMaxCount)

lemma setup_ceiling_requested:
  "threadsCount options = Num n \<Longrightarrow> n \<noteq> 0 \<Longrightarrow>
   workerMaxCount (snd (snd (pool_setup h options p))) = Num n"
  by (simp add: setup_workerMaxCount getWorkersCount_def)

text \<open>
  C1. The claim: after \<open>setup\<close> the ceiling is \<open>threadsCount\<close> when that is a positive
  number, and the number of CPUs minus \<open>inviolableThreadsCount\<close> when \<open>threadsCount\<close> is
  zero or not a number. The first half holds (\<open>setup_ceiling_requested\<close>). The second
  does not: \<open>setup\<close> calls \<open>getWorkersCount\<close> only when
  \<open>threadsCount > inviolableThreadsCount\<close>, so with \<open>threadsCount = 0\<close>,
  \<open>inviolableThreadsCount = 1\<close> and four CPUs the ceiling is 0 and the pool is empty,
  although \<open>getWorkersCount(0, 1)\<close> is 3 there. A \<open>threadsCount\<close> left out stays
  \<open>undefined\<close> in the same way.
\<close>

theorem setup_ceiling_zero_threads:
  "workerMaxCount (snd (snd (pool_setup
      \<lparr> cpus = 4, threadIdOf = Suc, setupReply = (\<lambda>i. Complete) \<rparr>
      \<lparr> threadsCount = Num 0, inviolableThreadsCount = Num 1,
        sharedData = JUndefined, workerLoaderPath = None \<rparr>
      new_WorkerPool))) = Num 0
   \<and> getWorkersCount 4 (Num 0) (Num 1) = Num 3
   \<and> availableWorkers (snd (snd (pool_setup
      \<lparr> cpus = 4, threadIdOf = Suc, setupReply = (\<lambda>i. Complete) \<rparr>
      \<lparr> threadsCount = Num 0, inviolableThreadsCount = Num 1,
        sharedData = JUndefined, workerLoaderPath = None \<rparr>
      new_WorkerPool))) = []
   \<and> workerMaxCount (snd (snd (pool_setup
      \<lparr> cpus = 4, threadIdOf = Suc, setupReply = (\<lambda>i. Complete) \<rparr>
      \<lparr> threadsCount = Undefined, inviolableThreadsCount = Num 1,
        sharedData = JUndefined, workerLoaderPath = None \<rparr>
      new_WorkerPool))) = Undefined
   \<and> getWorkersCount 4 Undefined (Num 1) = Num 3"
  by (simp add: setup_workerMaxCount getWorkersCount_def)
     (simp add: pool_setup_def setup_loop.simps new_WorkerPool_def)

section \<open>The pool invariant\<close>

lemma length_alist_update:
  "length (AList.update k v al) = (if k \<in> fst ` set al then length al else Suc (length al))"
  by (induct al) auto

lemma set_alist_update_subset:
  "set (AList.update k v al) \<subseteq> insert (k, v) (set al)"
  by (induct al) auto

lemma length_alist_delete:
  "distinct (map fst al) \<Longrightarrow> map_of al k = Some v \<Longrightarrow>
   Suc (length (AList.delete k al)) = length al"
  by (induct al) (auto simp: rev_image_eqI)

lemma set_alist_delete_subset: "set (AList.delete k al) \<subseteq> set al"
  by (auto simp: AList.delete_eq)

lemma getWorker_inv:
  assumes "pool_inv n p"
  shows "pool_inv n (snd (snd (getWorker ptr reply p)))"
proof (cases "availableWorkers p")
  case Nil
  with assms show ?thesis by (simp add: getWorker_def)
next
  case (Cons w rest)
  from assms Cons have fresh: "threadId w \<notin> fst ` set (activeWorkersByPid p)"
    and d: "distinct (map threadId rest @ map fst (activeWorkersByPid p))"
    and nw: "threadId w \<notin> threadId ` set rest"
    by (auto simp: pool_inv_def)
  let ?busy = "AList.update (threadId w) (w\<lparr>proxyPointer := ptr\<rparr>) (activeWorkersByPid p)"
  have keys: "map fst ?busy = map fst (activeWorkersByPid p) @ [threadId w]"
    using fresh by (simp add: update_keys)
  have len: "length ?busy = Suc (length (activeWorkersByPid p))"
    using fresh by (simp add: length_alist_update)
  have ids: "\<forall>kw \<in> set ?busy. threadId (snd kw) = fst kw"
    using assms set_alist_update_subset [of "threadId w" "w\<lparr>proxyPointer := ptr\<rparr>" "activeWorkersByPid p"]
    by (auto simp: pool_inv_def)
  have "pool_inv n (p\<lparr>availableWorkers := rest, activeWorkersByPid := ?busy\<rparr>)"
    using assms Cons d nw fresh keys len ids by (auto simp: pool_inv_def)
  then show ?thesis
    using Cons assms by (cases reply) (simp_all add: getWorker_def Let_def)
qed

lemma releaseWorker_inv:
  assumes "pool_inv n p"
  shows "pool_inv n (snd (snd (releaseWorker i d reply p)))"
proof (cases "map_of (activeWorkersByPid p) i")
  case None
  with assms show ?thesis by (simp add: releaseWorker_def)
next
  case (Some worker)
  show ?thesis
  proof (cases reply)
    case Complete
    from assms have dk: "distinct (map fst (activeWorkersByPid p))"
      by (simp add: pool_inv_def)
    from Some have mem: "(i, worker) \<in> set (activeWorkersByPid p)"
      by (rule map_of_SomeD)
    with assms have wid: "threadId worker = i" by (auto simp: pool_inv_def)
    from mem have ik: "i \<in> set (map fst (activeWorkersByPid p))" by force
    have len: "Suc (length (AList.delete i (activeWorkersByPid p))) = length (activeWorkersByPid p)"
      using dk Some by (rule length_alist_delete)
    with assms have lt: "js_lt (Num (int (length (availableWorkers p)))) (workerMaxCount p)"
      by (auto simp: pool_inv_def)
    have dist: "distinct (map threadId (availableWorkers p @ [worker])
                  @ map fst (AList.delete i (activeWorkersByPid p)))"
      using assms wid ik by (auto simp: pool_inv_def delete_keys distinct_removeAll)
    have ids: "\<forall>kw \<in> set (AList.delete i (activeWorkersByPid p)). threadId (snd kw) = fst kw"
      using assms set_alist_delete_subset [of i "activeWorkersByPid p"]
      by (auto simp: pool_inv_def)
    have "pool_inv n (p\<lparr>activeWorkersByPid := AList.delete i (activeWorkersByPid p),
                        availableWorkers := availableWorkers p @ [worker]\<rparr>)"
      using assms len dist ids by (auto simp: pool_inv_def)
    with Some Complete lt show ?thesis by (simp add: releaseWorker_def)
  next
    case (Failure e)
    with Some assms show ?thesis by (simp add: releaseWorker_def)
  next
    case NoReply
    with Some assms show ?thesis by (simp add: releaseWorker_def)
  qed
qed

lemma pool_step_inv: "pool_inv n p \<Longrightarrow> pool_inv n (pool_step c p)"
  by (cases c) (simp_all add: getWorker_inv releaseWorker_inv, simp add: pool_inv_def onWorkerRelease_def)

lemma pool_run_inv: "pool_inv n p \<Longrightarrow> pool_inv n (pool_run cs p)"
  by (induction cs arbitrary: p) (simp_all add: pool_step_inv)

lemma setup_loop_resolved:
  assumes "setup_loop h i evs p = (Resolved (), evs', p')"
    and "workerMaxCount p = Num (int n)" and "i \<le> n"
  shows "p' = p\<lparr>availableWorkers := availableWorkers p @
                 map (\<lambda>j. \<lparr>threadId = threadIdOf h j, proxyPointer = None\<rparr>) [i..<n]\<rparr>"
  using assms
proof (induction h i evs p rule: setup_loop.induct)
  case (1 h i evs p)
  show ?case
  proof (cases "i < n")
    case False
    with "1.prems" have "i = n" by simp
    with "1.prems"(2) have nlt: "\<not> js_lt (Num (int i)) (workerMaxCount p)" by simp
    from "1.prems"(1) nlt have "p' = p" by (simp add: setup_loop.simps [of h i evs p])
    with \<open>i = n\<close> show ?thesis by simp
  next
    case True
    with "1.prems" have lt: "js_lt (Num (int i)) (workerMaxCount p)" by simp
    show ?thesis
    proof (cases "setupReply h i")
      case Complete
      let ?p1 = "p\<lparr>availableWorkers := availableWorkers p @
                     [\<lparr>threadId = threadIdOf h i, proxyPointer = None\<rparr>]\<rparr>"
      from "1.prems"(1) lt Complete
      have run: "setup_loop h (Suc i) (evs @ [ProxySetup (threadIdOf h i)]) ?p1
                   = (Resolved (), evs', p')"
        by (simp add: setup_loop.simps [of h i evs p])
      have "p' = ?p1\<lparr>availableWorkers := availableWorkers ?p1 @
                 map (\<lambda>j. \<lparr>threadId = threadIdOf h j, proxyPointer = None\<rparr>) [Suc i..<n]\<rparr>"
        using "1.IH" [OF lt refl refl Complete run] "1.prems"(2) True by simp
      with True show ?thesis by (simp add: upt_conv_Cons)
    next
      case (Failure e)
      with "1.prems"(1) lt show ?thesis by (simp add: setup_loop.simps [of h i evs p])
    next
      case NoReply
      with "1.prems"(1) lt show ?thesis by (simp add: setup_loop.simps [of h i evs p])
    qed
  qed
qed

lemma setup_loop_activeWorkersByPid:
  "activeWorkersByPid (snd (snd (setup_loop h i evs p))) = activeWorkersByPid p"
proof (induction h i evs p rule: setup_loop.induct)
  case (1 h i evs p)
  show ?case
  proof (cases "js_lt (Num (int i)) (workerMaxCount p)")
    case False
    then show ?thesis by (simp add: setup_loop.simps [of h i evs p])
  next
    case True
    show ?thesis
    proof (cases "setupReply h i")
      case Complete
      with True "1.IH" [OF True refl refl Complete] show ?thesis
        by (simp add: setup_loop.simps [of h i evs p])
    next
      case (Failure e)
      with True show ?thesis by (simp add: setup_loop.simps [of h i evs p])
    next
      case NoReply
      with True show ?thesis by (simp add: setup_loop.simps [of h i evs p])
    qed
  qed
qed

lemma pool_setup_inv:
  assumes "inj (threadIdOf h)"
    and "pool_setup h options new_WorkerPool = (Resolved (), evs, p0)"
    and "workerMaxCount p0 = Num (int n)"
  shows "pool_inv n p0"
proof -
  let ?p = "new_WorkerPool\<lparr> poolLoaderPath := workerLoaderPath options,
           poolSharedData := sharedData options,
           workerMaxCount :=
             (if js_gt (threadsCount options) (inviolableThreadsCount options)
              then getWorkersCount (cpus h) (threadsCount options)
                     (inviolableThreadsCount options)
              else threadsCount options) \<rparr>"
  from assms(2) have run: "setup_loop h 0 [] ?p = (Resolved (), evs, p0)"
    by (simp add: pool_setup_def)
  have "workerMaxCount (snd (snd (setup_loop h 0 [] ?p))) = workerMaxCount ?p"
    by (rule setup_loop_workerMaxCount)
  with run assms(3) have m: "workerMaxCount ?p = Num (int n)" by simp
  have p0: "p0 = ?p\<lparr>availableWorkers := availableWorkers ?p @
                 map (\<lambda>j. \<lparr>threadId = threadIdOf h j, proxyPointer = None\<rparr>) [0..<n]\<rparr>"
    using run m by (rule setup_loop_resolved) simp
  have "distinct (map (threadIdOf h) [0..<n])"
    using assms(1) by (simp add: distinct_map inj_on_def inj_def)
  then show ?thesis
    using m by (simp add: p0 pool_inv_def new_WorkerPool_def comp_def)
qed

lemma sample_setup:
  "pool_setup sample_host sample_options new_WorkerPool
     = (Resolved (), [ProxySetup 1, ProxySetup 2], sample_pool)"
  by code_simp

lemma sample_inj: "inj (threadIdOf sample_host)"
  by (simp add: sample_host_def)

lemma sample_ceiling: "workerMaxCount sample_pool = Num (int 2)"
  by (simp add: sample_pool_def)

text \<open>
  C2. Pool accounting invariant. Let \<open>setup\<close> on a new pool resolve with a ceiling that is
  a count \<open>n\<close>, on a host that gives every thread its own id. Then all \<open>n\<close> proxies are
  idle and none is busy, and after every sequence \<open>cs\<close> of \<open>getWorker\<close>,
  \<open>releaseWorker\<close> and \<open>onWorkerRelease\<close> calls, whatever the threads answer,
  \<open>availableWorkers.length + activeWorkersByPid.size <= workerMaxCount\<close> and no proxy id
  is both in the idle list and in the busy map. The keys of the busy map stay distinct,
  so its size is the length of the list.
\<close>

theorem pool_accounting_invariant:
  assumes "inj (threadIdOf h)"
    and "pool_setup h options new_WorkerPool = (Resolved (), evs, p0)"
    and "workerMaxCount p0 = Num (int n)"
  shows "length (availableWorkers p0) = n \<and> activeWorkersByPid p0 = [] \<and>
         js_le (Num (int (length (availableWorkers (pool_run cs p0))
                          + length (activeWorkersByPid (pool_run cs p0)))))
               (workerMaxCount (pool_run cs p0)) \<and>
         threadId ` set (availableWorkers (pool_run cs p0))
           \<inter> fst ` set (activeWorkersByPid (pool_run cs p0)) = {} \<and>
         distinct (map fst (activeWorkersByPid (pool_run cs p0)))"
proof -
  from assms have i0: "pool_inv n p0" by (rule pool_setup_inv)
  then have i: "pool_inv n (pool_run cs p0)" by (rule pool_run_inv)
  have b0: "activeWorkersByPid (snd (snd (pool_setup h options new_WorkerPool))) = []"
    by (simp add: pool_setup_def setup_loop_activeWorkersByPid new_WorkerPool_def)
  with assms(2) have "activeWorkersByPid p0 = []" by simp
  moreover from this i0 have "length (availableWorkers p0) = n" by (simp add: pool_inv_def)
  moreover from i have "js_le (Num (int (length (availableWorkers (pool_run cs p0))
                          + length (activeWorkersByPid (pool_run cs p0)))))
               (workerMaxCount (pool_run cs p0))"
    by (simp add: pool_inv_def)
  moreover from i have "threadId ` set (availableWorkers (pool_run cs p0))
           \<inter> fst ` set (activeWorkersByPid (pool_run cs p0)) = {}"
    by (auto simp: pool_inv_def)
  moreover from i have "distinct (map fst (activeWorkersByPid (pool_run cs p0)))"
    by (simp add: pool_inv_def)
  ultimately show ?thesis by blast
qed

theorem pool_accounting_invariant_witness:
  "inj (threadIdOf sample_host) \<and>
   pool_setup sample_host sample_options new_WorkerPool
     = (Resolved (), [ProxySetup 1, ProxySetup 2], sample_pool) \<and>
   workerMaxCount sample_pool = Num (int 2) \<and>
   pool_run sample_calls sample_pool = sample_pool_later \<and>
   length (availableWorkers sample_pool) = 2 \<and> activeWorkersByPid sample_pool = [] \<and>
   js_le (Num (int (length (availableWorkers sample_pool_later)
                     + length (activeWorkersByPid sample_pool_later))))
         (workerMaxCount sample_pool_later) \<and>
   threadId ` set (availableWorkers sample_pool_later)
     \<inter> fst ` set (activeWorkersByPid sample_pool_later) = {} \<and>
   distinct (map fst (activeWorkersByPid sample_pool_later))"
proof -
  have run: "pool_run sample_calls sample_pool = sample_pool_later"
    by code_simp
  show ?thesis
    using pool_accounting_invariant [OF sample_inj sample_setup sample_ceiling, of sample_calls]
      sample_inj sample_setup sample_ceiling
    unfolding run by simp
qed

section \<open>Acquire and release\<close>

text \<open>
  C5. Acquire at the ceiling. When \<open>activeWorkersByPid.size\<close> equals \<open>workerMaxCount\<close>,
  \<open>getWorker\<close> resolves with \<open>null\<close>, calls \<open>load\<close> on no proxy (no event) and leaves the
  pool as it is, and so does a second \<open>getWorker\<close> after it. When the busy count is below
  the ceiling and the idle list is empty, the result is the same.
\<close>

theorem getWorker_at_ceiling:
  "(workerMaxCount p = Num (int (length (activeWorkersByPid p))) \<longrightarrow>
      getWorker ptr reply p = (Resolved None, [], p) \<and>
      getWorker ptr' reply' (snd (snd (getWorker ptr reply p))) = (Resolved None, [], p)) \<and>
   (js_lt (Num (int (length (activeWorkersByPid p)))) (workerMaxCount p)
      \<and> availableWorkers p = [] \<longrightarrow>
      getWorker ptr reply p = (Resolved None, [], p))"
  by (simp add: getWorker_def)

theorem getWorker_at_ceiling_witness:
  "workerMaxCount sample_busy_pool = Num (int (length (activeWorkersByPid sample_busy_pool))) \<and>
   getWorker (Some ''a'') Complete sample_busy_pool = (Resolved None, [], sample_busy_pool) \<and>
   getWorker None Complete (snd (snd (getWorker (Some ''a'') Complete sample_busy_pool)))
     = (Resolved None, [], sample_busy_pool) \<and>
   js_lt (Num (int (length (activeWorkersByPid sample_gap_pool)))) (workerMaxCount sample_gap_pool) \<and>
   availableWorkers sample_gap_pool = [] \<and>
   getWorker (Some ''a'') Complete sample_gap_pool = (Resolved None, [], sample_gap_pool)"
proof -
  have a: "workerMaxCount sample_busy_pool
             = Num (int (length (activeWorkersByPid sample_busy_pool)))"
    by (simp add: sample_busy_pool_def)
  have b: "js_lt (Num (int (length (activeWorkersByPid sample_gap_pool))))
             (workerMaxCount sample_gap_pool) \<and> availableWorkers sample_gap_pool = []"
    by (simp add: sample_gap_pool_def)
  show ?thesis
    using getWorker_at_ceiling [of sample_busy_pool "Some ''a''" Complete None Complete]
      getWorker_at_ceiling [of sample_gap_pool "Some ''a''" Complete None Complete] a b
    by blast
qed

text \<open>
  C7. Releasing an id that is not in the busy map leaves the whole pool unchanged and
  does one thing only: it logs the message. No \<open>dispose\<close>, no release handler.
\<close>

theorem releaseWorker_unknown_id:
  "map_of (activeWorkersByPid p) i = None \<Longrightarrow>
   releaseWorker i d reply p =
     (Resolved (),
      [ConsoleLog (''No worker with the specified ID #'' @ show_nat i @ '' was found'')],
      p)"
  by (simp add: releaseWorker_def)

theorem releaseWorker_unknown_id_witness:
  "map_of (activeWorkersByPid sample_busy_pool) 123 = None \<and>
   releaseWorker 123 (JString ''data'') Complete sample_busy_pool =
     (Resolved (), [ConsoleLog ''No worker with the specified ID #123 was found''],
      sample_busy_pool)"
proof -
  have a: "map_of (activeWorkersByPid sample_busy_pool) 123 = None"
    by (simp add: sample_busy_pool_def)
  have s: "show_nat 123 = ''123''" by code_simp
  show ?thesis
    using releaseWorker_unknown_id [OF a, of "JString ''data''" Complete] a
    by (simp add: s)
qed

lemma getWorker_Some_cases:
  assumes "getWorker ptr reply p = (Resolved (Some w), evs, p')"
  obtains w0 rest where "availableWorkers p = w0 # rest" "w = w0\<lparr>proxyPointer := ptr\<rparr>"
    "reply = Complete"
    "js_lt (Num (int (length (activeWorkersByPid p)))) (workerMaxCount p)"
    "evs = [ProxyLoad (threadId w0) ptr]"
    "p' = p\<lparr>availableWorkers := rest,
             activeWorkersByPid := AList.update (threadId w0) w (activeWorkersByPid p)\<rparr>"
  using assms
  by (cases "availableWorkers p"; cases reply)
     (auto simp: getWorker_def Let_def split: if_splits)

lemma getWorker_front:
  assumes "pool_inv n p" and "availableWorkers p = w # rest"
  shows "getWorker ptr Complete p =
     (Resolved (Some (w\<lparr>proxyPointer := ptr\<rparr>)), [ProxyLoad (threadId w) ptr],
      p\<lparr>availableWorkers := rest,
        activeWorkersByPid :=
          AList.update (threadId w) (w\<lparr>proxyPointer := ptr\<rparr>) (activeWorkersByPid p)\<rparr>)"
  using assms by (auto simp: pool_inv_def getWorker_def Let_def)

lemma drain_idle:
  assumes "pool_inv n p" and "availableWorkers p = xs @ [w]"
  shows "fst (getWorker ptr Complete
            (pool_run (replicate (length xs) (GetWorker ptr Complete)) p))
         = Resolved (Some (w\<lparr>proxyPointer := ptr\<rparr>))"
  using assms
proof (induction xs arbitrary: p)
  case Nil
  then show ?case by (simp add: getWorker_front)
next
  case (Cons x xs)
  from Cons.prems have av: "availableWorkers p = x # (xs @ [w])" by simp
  let ?p1 = "snd (snd (getWorker ptr Complete p))"
  have inv1: "pool_inv n ?p1" using Cons.prems(1) by (rule getWorker_inv)
  have "availableWorkers ?p1 = xs @ [w]"
    by (simp add: getWorker_front [OF Cons.prems(1) av])
  with inv1 have "fst (getWorker ptr Complete
            (pool_run (replicate (length xs) (GetWorker ptr Complete)) ?p1))
         = Resolved (Some (w\<lparr>proxyPointer := ptr\<rparr>))"
    by (rule Cons.IH)
  then show ?case by simp
qed

text \<open>When the dispose handshake fails or is never answered, the pool stays as it was.\<close>

lemma releaseWorker_not_disposed:
  "reply \<noteq> Complete \<Longrightarrow> snd (snd (releaseWorker i d reply p)) = p"
  by (cases reply; cases "map_of (activeWorkersByPid p) i") (simp_all add: releaseWorker_def)

text \<open>
  C6. Acquire then release. In a pool state reached from \<open>setup\<close> by any calls \<open>cs\<close>,
  let \<open>getWorker\<close> resolve with a proxy \<open>w\<close>, and let \<open>releaseWorker\<close> be called with its
  id, the thread completing the dispose handshake. Then the id, busy after the acquire,
  is no longer in the busy map, the busy map is what it was before the acquire, the idle
  list was below the ceiling and now ends with \<open>w\<close>, and once the proxies ahead of \<open>w\<close> in
  the idle list have been acquired, the next \<open>getWorker\<close> returns \<open>w\<close> again.
\<close>

theorem acquire_release_round_trip:
  assumes "inj (threadIdOf h)"
    and "pool_setup h options new_WorkerPool = (Resolved (), evs, p0)"
    and "workerMaxCount p0 = Num (int n)"
    and "getWorker ptr reply (pool_run cs p0) = (Resolved (Some w), evs1, p1)"
    and "releaseWorker (threadId w) d Complete p1 = (r, evs2, p2)"
  shows "map_of (activeWorkersByPid p1) (threadId w) = Some w \<and>
         map_of (activeWorkersByPid p2) (threadId w) = None \<and>
         activeWorkersByPid p2 = activeWorkersByPid (pool_run cs p0) \<and>
         length (activeWorkersByPid p2) = length (activeWorkersByPid (pool_run cs p0)) \<and>
         js_lt (Num (int (length (availableWorkers p1)))) (workerMaxCount p1) \<and>
         availableWorkers p2 = availableWorkers p1 @ [w] \<and>
         fst (getWorker ptr' Complete
               (pool_run (replicate (length (availableWorkers p1)) (GetWorker ptr' Complete)) p2))
           = Resolved (Some (w\<lparr>proxyPointer := ptr'\<rparr>))"
proof -
  let ?p = "pool_run cs p0"
  from assms(1-3) have "pool_inv n p0" by (rule pool_setup_inv)
  then have inv: "pool_inv n ?p" by (rule pool_run_inv)
  from assms(4) obtain w0 rest where
    av: "availableWorkers ?p = w0 # rest" and w: "w = w0\<lparr>proxyPointer := ptr\<rparr>"
    and p1: "p1 = ?p\<lparr>availableWorkers := rest,
             activeWorkersByPid := AList.update (threadId w0) w (activeWorkersByPid ?p)\<rparr>"
    by (rule getWorker_Some_cases)
  from w have tid: "threadId w = threadId w0" by simp
  from inv av have fresh: "threadId w0 \<notin> fst ` set (activeWorkersByPid ?p)"
    by (auto simp: pool_inv_def)
  from inv av have lt: "js_lt (Num (int (length rest))) (workerMaxCount ?p)"
    by (auto simp: pool_inv_def)
  have look1: "map_of (activeWorkersByPid p1) (threadId w) = Some w"
    by (simp add: p1 tid update_conv')
  have busy_back: "AList.delete (threadId w0)
      (AList.update (threadId w0) w (activeWorkersByPid ?p)) = activeWorkersByPid ?p"
    using fresh by (simp add: delete_update_same)
  from assms(5) look1 lt have p2: "p2 = p1\<lparr>activeWorkersByPid := activeWorkersByPid ?p,
                   availableWorkers := rest @ [w]\<rparr>"
    by (simp add: releaseWorker_def p1 tid busy_back)
  have "p1 = snd (snd (getWorker ptr reply ?p))" using assms(4) by simp
  with inv have inv1: "pool_inv n p1" by (simp add: getWorker_inv)
  have "p2 = snd (snd (releaseWorker (threadId w) d Complete p1))" using assms(5) by simp
  with inv1 have inv2: "pool_inv n p2" by (simp add: releaseWorker_inv)
  have av2: "availableWorkers p2 = rest @ [w]" by (simp add: p2)
  have again: "fst (getWorker ptr' Complete
               (pool_run (replicate (length rest) (GetWorker ptr' Complete)) p2))
           = Resolved (Some (w\<lparr>proxyPointer := ptr'\<rparr>))"
    using inv2 av2 by (rule drain_idle)
  have none2: "map_of (activeWorkersByPid p2) (threadId w) = None"
    using fresh by (simp add: p2 tid map_of_eq_None_iff)
  show ?thesis
    using look1 none2 again lt by (simp add: p2 p1)
qed

theorem acquire_release_round_trip_witness:
  "inj (threadIdOf sample_host) \<and>
   pool_setup sample_host sample_options new_WorkerPool
     = (Resolved (), [ProxySetup 1, ProxySetup 2], sample_pool) \<and>
   workerMaxCount sample_pool = Num (int 2) \<and>
   pool_run [GetWorker None Complete, ReleaseWorker 1 JNull Complete] sample_pool
     = sample_pool_cycled \<and>
   getWorker (Some ''a'') Complete sample_pool_cycled
     = (Resolved (Some \<lparr> threadId = 2, proxyPointer = Some ''a'' \<rparr>),
        [ProxyLoad 2 (Some ''a'')], sample_pool_acquired) \<and>
   releaseWorker 2 (JString ''done'') Complete sample_pool_acquired
     = (Resolved (), [ProxyDispose 2], sample_pool_released) \<and>
   map_of (activeWorkersByPid sample_pool_acquired) 2
     = Some \<lparr> threadId = 2, proxyPointer = Some ''a'' \<rparr> \<and>
   map_of (activeWorkersByPid sample_pool_released) 2 = None \<and>
   activeWorkersByPid sample_pool_released = activeWorkersByPid sample_pool_cycled \<and>
   length (activeWorkersByPid sample_pool_released)
     = length (activeWorkersByPid sample_pool_cycled) \<and>
   js_lt (Num (int (length (availableWorkers sample_pool_acquired))))
     (workerMaxCount sample_pool_acquired) \<and>
   availableWorkers sample_pool_released
     = availableWorkers sample_pool_acquired @ [\<lparr> threadId = 2, proxyPointer = Some ''a'' \<rparr>] \<and>
   fst (getWorker (Some ''b'') Complete
         (pool_run [GetWorker (Some ''b'') Complete] sample_pool_released))
     = Resolved (Some \<lparr> threadId = 2, proxyPointer = Some ''b'' \<rparr>)"
proof -
  have run: "pool_run [GetWorker None Complete, ReleaseWorker 1 JNull Complete] sample_pool
     = sample_pool_cycled"
    by code_simp
  have a: "getWorker (Some ''a'') Complete
       (pool_run [GetWorker None Complete, ReleaseWorker 1 JNull Complete] sample_pool)
     = (Resolved (Some \<lparr> threadId = 2, proxyPointer = Some ''a'' \<rparr>),
        [ProxyLoad 2 (Some ''a'')], sample_pool_acquired)"
    by code_simp
  have r: "releaseWorker (threadId \<lparr> threadId = 2, proxyPointer = Some ''a'' \<rparr>)
        (JString ''done'') Complete sample_pool_acquired
     = (Resolved (), [ProxyDispose 2], sample_pool_released)"
    by code_simp
  have l: "replicate (length (availableWorkers sample_pool_acquired))
             (GetWorker (Some ''b'') Complete) = [GetWorker (Some ''b'') Complete]"
    by (simp add: sample_pool_acquired_def)
  have t: "threadId \<lparr> threadId = 2, proxyPointer = Some ''a'' \<rparr> = 2"
       "\<lparr> threadId = 2, proxyPointer = Some ''a'' \<rparr>\<lparr>proxyPointer := Some ''b''\<rparr>
          = \<lparr> threadId = 2, proxyPointer = Some ''b'' \<rparr>"
    by simp_all
  show ?thesis
    using acquire_release_round_trip [OF sample_inj sample_setup sample_ceiling a r, of "Some ''b''"]
      sample_inj sample_setup sample_ceiling a r run
    unfolding run l t by blast
qed

section \<open>Order of reuse\<close>

lemma handed_out_length: "length (handed_out rs) \<le> length rs"
  by (induction rs rule: handed_out.induct) auto

lemma getWorkers_length: "length (fst (getWorkers rs p)) = length rs"
proof (induction rs arbitrary: p)
  case Nil
  show ?case by simp
next
  case (Cons a rs)
  obtain ptr reply where a: "a = (ptr, reply)" by (cases a)
  obtain r evs p' where g: "getWorker ptr reply p = (r, evs, p')"
    by (cases "getWorker ptr reply p")
  obtain res p'' where gs: "getWorkers rs p' = (res, p'')" by (cases "getWorkers rs p'")
  from Cons [of p'] gs have "length res = length rs" by simp
  then show ?case by (simp add: a g gs)
qed

lemma getWorkers_order:
  "length (handed_out (fst (getWorkers rs p))) = length rs \<Longrightarrow>
   handed_out (fst (getWorkers rs p)) = take (length rs) (map threadId (availableWorkers p))"
proof (induction rs arbitrary: p)
  case Nil
  then show ?case by simp
next
  case (Cons a rs)
  obtain ptr reply where a: "a = (ptr, reply)" by (cases a)
  obtain r evs p' where g: "getWorker ptr reply p = (r, evs, p')"
    by (cases "getWorker ptr reply p")
  obtain res p'' where gs: "getWorkers rs p' = (res, p'')" by (cases "getWorkers rs p'")
  have all: "fst (getWorkers (a # rs) p) = r # res" by (simp add: a g gs)
  show ?case
  proof (cases "\<exists>w. r = Resolved (Some w)")
    case False
    have "handed_out (r # res) = handed_out res"
    proof (cases r)
      case (Resolved x)
      with False show ?thesis by (cases x) auto
    qed auto
    moreover have "length res = length rs"
      using getWorkers_length [of rs p'] gs by simp
    ultimately have "length (handed_out (r # res)) \<le> length rs"
      using handed_out_length [of res] by simp
    with Cons.prems all show ?thesis by simp
  next
    case True
    then obtain w where r: "r = Resolved (Some w)" by blast
    from g r obtain w0 rest where av: "availableWorkers p = w0 # rest"
      and w: "w = w0\<lparr>proxyPointer := ptr\<rparr>"
      and p': "p' = p\<lparr>availableWorkers := rest,
             activeWorkersByPid := AList.update (threadId w0) w (activeWorkersByPid p)\<rparr>"
      by (auto elim: getWorker_Some_cases)
    from Cons.prems all r gs have "length (handed_out (fst (getWorkers rs p'))) = length rs"
      by simp
    then have "handed_out (fst (getWorkers rs p'))
        = take (length rs) (map threadId (availableWorkers p'))"
      by (rule Cons.IH)
    with all r gs av w p' show ?thesis by simp
  qed
qed

lemma releaseWorker_push:
  "map_of (activeWorkersByPid p) i = Some worker \<Longrightarrow>
   js_lt (Num (int (length (availableWorkers p)))) (workerMaxCount p) \<Longrightarrow>
   availableWorkers (snd (snd (releaseWorker i d Complete p))) = availableWorkers p @ [worker]"
  by (simp add: releaseWorker_def)

lemma pool_setup_creation_order:
  assumes "pool_setup h options new_WorkerPool = (Resolved (), evs, p0)"
    and "workerMaxCount p0 = Num (int n)"
  shows "map threadId (availableWorkers p0) = map (threadIdOf h) [0..<n]"
proof -
  let ?p = "new_WorkerPool\<lparr> poolLoaderPath := workerLoaderPath options,
           poolSharedData := sharedData options,
           workerMaxCount :=
             (if js_gt (threadsCount options) (inviolableThreadsCount options)
              then getWorkersCount (cpus h) (threadsCount options)
                     (inviolableThreadsCount options)
              else threadsCount options) \<rparr>"
  from assms(1) have run: "setup_loop h 0 [] ?p = (Resolved (), evs, p0)"
    by (simp add: pool_setup_def)
  have "workerMaxCount (snd (snd (setup_loop h 0 [] ?p))) = workerMaxCount ?p"
    by (rule setup_loop_workerMaxCount)
  with run assms(2) have m: "workerMaxCount ?p = Num (int n)" by simp
  have "p0 = ?p\<lparr>availableWorkers := availableWorkers ?p @
                 map (\<lambda>j. \<lparr>threadId = threadIdOf h j, proxyPointer = None\<rparr>) [0..<n]\<rparr>"
    using run m by (rule setup_loop_resolved) simp
  then show ?thesis by (simp add: new_WorkerPool_def comp_def)
qed

text \<open>
  C10. FIFO reuse. A \<open>getWorker\<close> that returns a proxy returns the front of the idle list
  and leaves the rest of it; a completed \<open>releaseWorker\<close> of a busy proxy, the idle list
  being below the ceiling, puts that proxy at the back. So when every one of a sequence
  of \<open>getWorker\<close> calls returns a proxy, the ids handed out are the front of the idle
  list in its order, and after \<open>setup\<close> that order is the order of creation.
\<close>

theorem pool_fifo_order:
  "(getWorker ptr reply pa = (Resolved (Some w), evs, pa') \<longrightarrow>
      (\<exists>front. availableWorkers pa = front # availableWorkers pa'
         \<and> w = front\<lparr>proxyPointer := ptr\<rparr>)) \<and>
   (map_of (activeWorkersByPid pb) i = Some worker \<and>
    js_lt (Num (int (length (availableWorkers pb)))) (workerMaxCount pb) \<longrightarrow>
      availableWorkers (snd (snd (releaseWorker i d Complete pb)))
        = availableWorkers pb @ [worker]) \<and>
   (length (handed_out (fst (getWorkers rs pc))) = length rs \<longrightarrow>
      handed_out (fst (getWorkers rs pc))
        = take (length rs) (map threadId (availableWorkers pc))) \<and>
   (pool_setup h options new_WorkerPool = (Resolved (), evs0, p0) \<and>
    workerMaxCount p0 = Num (int n) \<longrightarrow>
      map threadId (availableWorkers p0) = map (threadIdOf h) [0..<n])"
proof (intro conjI impI)
  assume "getWorker ptr reply pa = (Resolved (Some w), evs, pa')"
  then obtain w0 rest where "availableWorkers pa = w0 # rest" "w = w0\<lparr>proxyPointer := ptr\<rparr>"
    "pa' = pa\<lparr>availableWorkers := rest,
             activeWorkersByPid := AList.update (threadId w0) w (activeWorkersByPid pa)\<rparr>"
    by (rule getWorker_Some_cases)
  then show "\<exists>front. availableWorkers pa = front # availableWorkers pa'
         \<and> w = front\<lparr>proxyPointer := ptr\<rparr>"
    by simp
next
  assume "map_of (activeWorkersByPid pb) i = Some worker \<and>
    js_lt (Num (int (length (availableWorkers pb)))) (workerMaxCount pb)"
  then show "availableWorkers (snd (snd (releaseWorker i d Complete pb)))
        = availableWorkers pb @ [worker]"
    by (simp add: releaseWorker_push)
next
  assume "length (handed_out (fst (getWorkers rs pc))) = length rs"
  then show "handed_out (fst (getWorkers rs pc))
        = take (length rs) (map threadId (availableWorkers pc))"
    by (rule getWorkers_order)
next
  assume "pool_setup h options new_WorkerPool = (Resolved (), evs0, p0) \<and>
    workerMaxCount p0 = Num (int n)"
  then show "map threadId (availableWorkers p0) = map (threadIdOf h) [0..<n]"
    using pool_setup_creation_order [of h options evs0 p0 n] by blast
qed

theorem pool_fifo_order_witness:
  "getWorker (Some ''a'') Complete sample_pool_cycled
     = (Resolved (Some \<lparr> threadId = 2, proxyPointer = Some ''a'' \<rparr>),
        [ProxyLoad 2 (Some ''a'')], sample_pool_acquired) \<and>
   (\<exists>front. availableWorkers sample_pool_cycled = front # availableWorkers sample_pool_acquired
      \<and> \<lparr> threadId = 2, proxyPointer = Some ''a'' \<rparr> = front\<lparr>proxyPointer := Some ''a''\<rparr>) \<and>
   map_of (activeWorkersByPid sample_pool_acquired) 2
     = Some \<lparr> threadId = 2, proxyPointer = Some ''a'' \<rparr> \<and>
   js_lt (Num (int (length (availableWorkers sample_pool_acquired))))
     (workerMaxCount sample_pool_acquired) \<and>
   availableWorkers (snd (snd (releaseWorker 2 JNull Complete sample_pool_acquired)))
     = availableWorkers sample_pool_acquired @ [\<lparr> threadId = 2, proxyPointer = Some ''a'' \<rparr>] \<and>
   length (handed_out (fst (getWorkers [(None, Complete), (Some ''b'', Complete)]
      sample_pool_cycled))) = length [(None :: string option, Complete), (Some ''b'', Complete)] \<and>
   handed_out (fst (getWorkers [(None, Complete), (Some ''b'', Complete)] sample_pool_cycled))
     = [2, 1] \<and>
   pool_setup sample_host sample_options new_WorkerPool
     = (Resolved (), [ProxySetup 1, ProxySetup 2], sample_pool) \<and>
   workerMaxCount sample_pool = Num (int 2) \<and>
   map threadId (availableWorkers sample_pool) = map (threadIdOf sample_host) [0..<2]"
proof -
  have a: "getWorker (Some ''a'') Complete sample_pool_cycled
     = (Resolved (Some \<lparr> threadId = 2, proxyPointer = Some ''a'' \<rparr>),
        [ProxyLoad 2 (Some ''a'')], sample_pool_acquired)"
    by code_simp
  have b: "map_of (activeWorkersByPid sample_pool_acquired) 2
     = Some \<lparr> threadId = 2, proxyPointer = Some ''a'' \<rparr> \<and>
     js_lt (Num (int (length (availableWorkers sample_pool_acquired))))
       (workerMaxCount sample_pool_acquired)"
    by (simp add: sample_pool_acquired_def)
  have c: "length (handed_out (fst (getWorkers [(None, Complete), (Some ''b'', Complete)]
      sample_pool_cycled))) = length [(None :: string option, Complete), (Some ''b'', Complete)]"
    by code_simp
  have t: "take (length [(None :: string option, Complete), (Some ''b'', Complete)])
             (map threadId (availableWorkers sample_pool_cycled)) = [2, 1]"
    by (simp add: sample_pool_cycled_def)
  show ?thesis
    using pool_fifo_order [where pa = sample_pool_cycled and ptr = "Some ''a''"
        and reply = Complete and w = "\<lparr> threadId = 2, proxyPointer = Some ''a'' \<rparr>"
        and evs = "[ProxyLoad 2 (Some ''a'')]" and pa' = sample_pool_acquired
        and pb = sample_pool_acquired and i = 2
        and worker = "\<lparr> threadId = 2, proxyPointer = Some ''a'' \<rparr>" and d = JNull
        and rs = "[(None, Complete), (Some ''b'', Complete)]" and pc = sample_pool_cycled
        and h = sample_host and options = sample_options
        and ?evs0.0 = "[ProxySetup 1, ProxySetup 2]" and ?p0.0 = sample_pool and n = 2]
      a b c sample_setup sample_ceiling
    unfolding t by blast
qed

end
